theory Spec2Isabelle
  imports Complex_Main "HOL-Library.AList"
begin

section \<open>Accept-header negotiation of grafserv (\<open>grafast/grafserv/src/accept.ts\<close>)\<close>

text \<open>
  A shallow embedding of \<open>makeAcceptMatcher\<close>, \<open>matchesParameters\<close> and \<open>parseAccepts\<close>.

  Conventions of the embedding:
  \<^item> A JavaScript string is a \<open>string\<close> (a list of 8-bit \<open>char\<close>s): header values reach
    the server as single-byte code units. \<open>charCodeAt\<close> is \<open>charCode\<close>.
  \<^item> An object created by \<open>Object.create(null)\<close> is an association list with distinct
    keys, in order of first insertion: \<open>o[k] = v\<close> is \<open>AList.update k v\<close>,
    \<open>delete o[k]\<close> is \<open>AList.delete k\<close>, \<open>o[k]\<close> is \<open>map_of o k\<close> (\<open>None\<close> is
    \<open>undefined\<close>). The code reads such objects by key and counts their keys only.
  \<^item> A thrown \<open>Error\<close> is the left injection of a sum.
  \<^item> The index \<open>i\<close> of the parser's loop is the unread suffix of the header.
  \<^item> \<open>parseFloat\<close> is a built-in of the language, not code of the repository. The
    parser takes it as the parameter \<open>pf\<close>; a number that passed the range check is
    finite and is kept as its exact rational value.
\<close>

subsection \<open>Character classes\<close>

definition charCode :: "char \<Rightarrow> nat" where
  "charCode c = of_char c"

definition SPACE :: nat where "SPACE = 32"
definition HORIZONTAL_TAB :: nat where "HORIZONTAL_TAB = 9"
definition ASTERISK :: nat where "ASTERISK = 42"
definition SLASH :: nat where "SLASH = 47"
definition COMMA :: nat where "COMMA = 44"
definition SEMICOLON :: nat where "SEMICOLON = 59"
definition EQUALS :: nat where "EQUALS = 61"
definition DOUBLE_QUOTE :: nat where "DOUBLE_QUOTE = 34"
definition BACKSLASH :: nat where "BACKSLASH = 92"

definition WHITESPACE_START :: nat where "WHITESPACE_START = 9"
definition WHITESPACE_END :: nat where "WHITESPACE_END = 13"

definition isWhitespace :: "nat \<Rightarrow> bool" where
  "isWhitespace cc \<longleftrightarrow>
     cc = SPACE \<or> (cc \<ge> WHITESPACE_START \<and> cc \<le> WHITESPACE_END)"

definition isOWS :: "nat \<Rightarrow> bool" where
  "isOWS cc \<longleftrightarrow> cc = SPACE \<or> cc = HORIZONTAL_TAB"

definition isToken :: "nat \<Rightarrow> bool" where
  "isToken cc \<longleftrightarrow>
     (cc \<ge> 94 \<and> cc \<le> 122) \<or>
     (cc \<ge> 35 \<and> cc \<le> 57 \<and> cc \<noteq> 40 \<and> cc \<noteq> 41 \<and> cc \<noteq> 44) \<or>
     (cc \<ge> 65 \<and> cc \<le> 90) \<or>
     cc = 33 \<or>
     cc = 124 \<or>
     cc = 126"

subsection \<open>Data\<close>

text \<open>The result of \<open>parseFloat\<close>: a double is NaN, an infinity, or finite.\<close>

datatype jsnum = NaN | NegInfinity | PosInfinity | Finite rat

text \<open>\<open>Number.isNaN(q) || q < 0 || q > 1\<close>\<close>

fun q_out_of_range :: "jsnum \<Rightarrow> bool" where
  "q_out_of_range NaN = True"
| "q_out_of_range NegInfinity = True"
| "q_out_of_range PosInfinity = True"
| "q_out_of_range (Finite r) = (r < 0 \<or> r > 1)"

fun finite_value :: "jsnum \<Rightarrow> rat" where
  "finite_value (Finite r) = r"
| "finite_value _ = 0"

text \<open>\<open>interface Accept\<close>, as the parser builds it: every field is a string.\<close>

record Accept =
  type :: string
  subtype :: string
  parameters :: "(string \<times> string) list"
  q :: rat

datatype State =
    EXPECT_TYPE
  | CONTINUE_TYPE
  | EXPECT_SUBTYPE
  | CONTINUE_SUBTYPE
  | EXPECT_COMMA_OR_SEMICOLON
  | EXPECT_PARAMETER_NAME
  | CONTINUE_PARAMETER_NAME
  | EXPECT_PARAMETER_VALUE
  | CONTINUE_PARAMETER_VALUE
  | CONTINUE_QUOTED_PARAMETER_VALUE

text \<open>
  The errors of the parser, one per \<open>throw\<close>. \<open>NullDereference\<close> is the \<open>TypeError\<close>
  that \<open>currentAccept!\<close> raises when \<open>currentAccept\<close> is \<open>null\<close>.
\<close>

datatype error =
    UnexpectedCharacter char
  | ExpectedSlash
  | UnexpectedTerminatingBackslash
  | QOutOfRange
  | NullDereference

text \<open>The local variables of \<open>parseAccepts\<close> that its loop and \<open>next\<close> share.\<close>

record parser =
  accepts :: "Accept list"
  state :: State
  currentAccept :: "Accept option"
  currentParameterName :: string

subsection \<open>The parser\<close>

text \<open>\<open>o[k] += s\<close> on a prototype-less object: an absent \<open>o[k]\<close> reads as
  \<open>undefined\<close>, and \<open>undefined + s\<close> is the string \<open>"undefined" + s\<close>.\<close>

definition append_property :: "string \<Rightarrow> string \<Rightarrow> (string \<times> string) list \<Rightarrow> (string \<times> string) list" where
  "append_property k s ps =
     AList.update k ((case map_of ps k of None \<Rightarrow> ''undefined'' | Some v \<Rightarrow> v) @ s) ps"

text \<open>\<open>function next()\<close>. A string is truthy when it is not empty.\<close>

definition push_accept :: "parser \<Rightarrow> Accept \<Rightarrow> parser" where
  "push_accept st a =
     st\<lparr>accepts := accepts st @ [a], currentAccept := None, state := EXPECT_TYPE\<rparr>"

definition next' :: "(string \<Rightarrow> jsnum) \<Rightarrow> parser \<Rightarrow> error + parser" where
  "next' pf st =
     (case currentAccept st of
        None \<Rightarrow> Inl NullDereference
      | Some ca \<Rightarrow>
          (case map_of (parameters ca) ''q'' of
             None \<Rightarrow> Inr (push_accept st ca)
           | Some v \<Rightarrow>
               if v \<noteq> [] then
                 (if q_out_of_range (pf v) then Inl QOutOfRange
                  else Inr (push_accept st
                         (ca\<lparr>parameters := AList.delete ''q'' (parameters ca),
                             q := finite_value (pf v)\<rparr>)))
               else Inr (push_accept st ca)))"

text \<open>Updating \<open>currentAccept!\<close> in place.\<close>

definition with_current :: "parser \<Rightarrow> (Accept \<Rightarrow> Accept) \<Rightarrow> error + parser" where
  "with_current st f =
     (case currentAccept st of
        None \<Rightarrow> Inl NullDereference
      | Some ca \<Rightarrow> Inr (st\<lparr>currentAccept := Some (f ca)\<rparr>))"

text \<open>
  One iteration of the \<open>for\<close> loop at the character \<open>c\<close>, with \<open>rest\<close> the characters
  after it. The result is the new state and the number of further characters the
  iteration consumed itself (by \<open>++i\<close>).
\<close>

definition step :: "(string \<Rightarrow> jsnum) \<Rightarrow> parser \<Rightarrow> char \<Rightarrow> string \<Rightarrow> error + (parser \<times> nat)" where
  "step pf st c rest =
     (case state st of
        EXPECT_TYPE \<Rightarrow>
          if isWhitespace (charCode c) then Inr (st, 0)
          else if charCode c = ASTERISK then
            (case rest of
               [] \<Rightarrow> Inl ExpectedSlash
             | n # rest' \<Rightarrow>
                 if charCode n \<noteq> SLASH then Inl ExpectedSlash
                 else if (case rest' of [] \<Rightarrow> False | a # _ \<Rightarrow> charCode a = ASTERISK) then
                   Inr (st\<lparr>currentAccept :=
                              Some \<lparr>type = ''*'', subtype = ''*'', parameters = [], q = 1\<rparr>,
                           state := EXPECT_COMMA_OR_SEMICOLON\<rparr>, 2)
                 else
                   Inr (st\<lparr>currentAccept :=
                              Some \<lparr>type = ''*'', subtype = '''', parameters = [], q = 1\<rparr>,
                           state := EXPECT_SUBTYPE\<rparr>, 1))
          else if isToken (charCode c) then
            Inr (st\<lparr>currentAccept :=
                       Some \<lparr>type = [c], subtype = '''', parameters = [], q = 1\<rparr>,
                    state := CONTINUE_TYPE\<rparr>, 0)
          else Inl (UnexpectedCharacter c)
      | CONTINUE_TYPE \<Rightarrow>
          if charCode c = SLASH then Inr (st\<lparr>state := EXPECT_SUBTYPE\<rparr>, 0)
          else if isToken (charCode c) then
            map_sum id (\<lambda>s. (s, 0)) (with_current st (\<lambda>a. a\<lparr>type := type a @ [c]\<rparr>))
          else Inl (UnexpectedCharacter c)
      | EXPECT_SUBTYPE \<Rightarrow>
          if isToken (charCode c) then
            map_sum id (\<lambda>s. (s\<lparr>state := CONTINUE_SUBTYPE\<rparr>, 0))
              (with_current st (\<lambda>a. a\<lparr>subtype := [c]\<rparr>))
          else Inl (UnexpectedCharacter c)
      | CONTINUE_SUBTYPE \<Rightarrow>
          if charCode c = SEMICOLON then Inr (st\<lparr>state := EXPECT_PARAMETER_NAME\<rparr>, 0)
          else if charCode c = COMMA then map_sum id (\<lambda>s. (s, 0)) (next' pf st)
          else if isToken (charCode c) then
            map_sum id (\<lambda>s. (s, 0)) (with_current st (\<lambda>a. a\<lparr>type := type a @ [c]\<rparr>))
          else Inl (UnexpectedCharacter c)
      | EXPECT_COMMA_OR_SEMICOLON \<Rightarrow>
          if isWhitespace (charCode c) then Inr (st, 0)
          else if charCode c = SEMICOLON then Inr (st\<lparr>state := EXPECT_PARAMETER_NAME\<rparr>, 0)
          else if charCode c = COMMA then map_sum id (\<lambda>s. (s, 0)) (next' pf st)
          else Inl (UnexpectedCharacter c)
      | EXPECT_PARAMETER_NAME \<Rightarrow>
          if isOWS (charCode c) then Inr (st, 0)
          else if isToken (charCode c) then
            Inr (st\<lparr>currentParameterName := [c], state := CONTINUE_PARAMETER_NAME\<rparr>, 0)
          else Inl (UnexpectedCharacter c)
      | CONTINUE_PARAMETER_NAME \<Rightarrow>
          if isToken (charCode c) then
            Inr (st\<lparr>currentParameterName := currentParameterName st @ [c]\<rparr>, 0)
          else if charCode c = EQUALS then
            map_sum id (\<lambda>s. (s, 0))
              (with_current (st\<lparr>state := EXPECT_PARAMETER_VALUE\<rparr>)
                 (\<lambda>a. a\<lparr>parameters := AList.update (currentParameterName st) '''' (parameters a)\<rparr>))
          else Inl (UnexpectedCharacter c)
      | EXPECT_PARAMETER_VALUE \<Rightarrow>
          if charCode c = DOUBLE_QUOTE then
            Inr (st\<lparr>state := CONTINUE_QUOTED_PARAMETER_VALUE\<rparr>, 0)
          else if isToken (charCode c) then
            Inr (st\<lparr>state := CONTINUE_PARAMETER_VALUE,
                    currentParameterName := currentParameterName st @ [c]\<rparr>, 0)
          else if charCode c = EQUALS then Inr (st\<lparr>state := EXPECT_PARAMETER_VALUE\<rparr>, 0)
          else Inl (UnexpectedCharacter c)
      | CONTINUE_QUOTED_PARAMETER_VALUE \<Rightarrow>
          if charCode c = DOUBLE_QUOTE then Inr (st\<lparr>state := EXPECT_COMMA_OR_SEMICOLON\<rparr>, 0)
          else if charCode c = BACKSLASH then
            (case rest of
               [] \<Rightarrow> Inl UnexpectedTerminatingBackslash
             | ch # _ \<Rightarrow>
                 map_sum id (\<lambda>s. (s, 1))
                   (with_current st
                      (\<lambda>a. a\<lparr>parameters :=
                               append_property (currentParameterName st) [ch] (parameters a)\<rparr>)))
          else
            map_sum id (\<lambda>s. (s, 0))
              (with_current st
                 (\<lambda>a. a\<lparr>parameters :=
                          append_property (currentParameterName st) [c] (parameters a)\<rparr>))
      | CONTINUE_PARAMETER_VALUE \<Rightarrow>
          if charCode c = SEMICOLON then Inr (st\<lparr>state := EXPECT_PARAMETER_NAME\<rparr>, 0)
          else if charCode c = COMMA then map_sum id (\<lambda>s. (s, 0)) (next' pf st)
          else if isToken (charCode c) then
            map_sum id (\<lambda>s. (s, 0))
              (with_current st
                 (\<lambda>a. a\<lparr>parameters :=
                          append_property (currentParameterName st) [c] (parameters a)\<rparr>))
          else Inl (UnexpectedCharacter c))"

text \<open>The \<open>for\<close> loop over the header.\<close>

function parse_loop :: "(string \<Rightarrow> jsnum) \<Rightarrow> parser \<Rightarrow> string \<Rightarrow> error + parser" where
  "parse_loop pf st [] = Inr st"
| "parse_loop pf st (c # cs) =
     (case step pf st c cs of
        Inl e \<Rightarrow> Inl e
      | Inr (st', k) \<Rightarrow> parse_loop pf st' (drop k cs))"
  by pat_completeness auto
termination
  by (relation "measure (\<lambda>(pf, st, cs). length cs)") auto

text \<open>The precedence score and the final sort (\<open>Array.prototype.sort\<close> is stable; the
  comparator \<open>scoreZ - scoreA\<close> orders by descending score).\<close>

definition object_keys :: "('k \<times> 'v) list \<Rightarrow> 'k list" where
  "object_keys ps = remdups (map fst ps)"

definition score :: "Accept \<Rightarrow> nat" where
  "score accept =
     (if type accept \<noteq> ''*'' then 1000 else 0) +
     (if subtype accept \<noteq> ''*'' then 1000000 else 0) +
     length (object_keys (parameters accept))"

definition sort_accepts :: "Accept list \<Rightarrow> Accept list" where
  "sort_accepts as = sort_key (\<lambda>a. - int (score a)) as"

definition initial_parser :: parser where
  "initial_parser =
     \<lparr>accepts = [], state = EXPECT_TYPE, currentAccept = None, currentParameterName = ''''\<rparr>"

definition parseAccepts :: "(string \<Rightarrow> jsnum) \<Rightarrow> string \<Rightarrow> error + Accept list" where
  "parseAccepts pf acceptHeader =
     (case parse_loop pf initial_parser acceptHeader of
        Inl e \<Rightarrow> Inl e
      | Inr st \<Rightarrow>
          (case (if state st \<noteq> EXPECT_TYPE then next' pf st else Inr st) of
             Inl e \<Rightarrow> Inl e
           | Inr st' \<Rightarrow> Inr (sort_accepts (accepts st'))))"

subsection \<open>The matcher\<close>

text \<open>
  A value that \<open>preferredAccept\<close> returns or that the cache holds: a string, \<open>null\<close>, or
  \<open>undefined\<close> (what \<open>mediaTypes[0]\<close> is for an empty list, and what \<open>lru.get\<close> returns
  for a key it does not hold).
\<close>

datatype jsvalue = Undefined | Null | String string

text \<open>\<open>!v\<close>: \<open>undefined\<close>, \<open>null\<close> and the empty string are falsy.\<close>

fun falsy :: "jsvalue \<Rightarrow> bool" where
  "falsy Undefined = True"
| "falsy Null = True"
| "falsy (String s) = (s = [])"

text \<open>
  \<open>type TypeDigest = Accept & { originalType: string }\<close>, as \<open>makeAcceptMatcher\<close> builds
  it: destructuring a split that has no second part leaves \<open>subtype\<close> or a parameter's
  value \<open>undefined\<close> (\<open>None\<close>).
\<close>

record TypeDigest =
  d_type :: string
  d_subtype :: "string option"
  d_parameters :: "(string \<times> string option) list"
  d_q :: rat
  originalType :: string

text \<open>\<open>s.split(sep)\<close> for a one-character separator, as its first part and the parts
  after it: \<open>split\<close> cuts at every occurrence and always returns at least one part.\<close>

fun js_split :: "char \<Rightarrow> string \<Rightarrow> string \<times> string list" where
  "js_split sep [] = ([], [])"
| "js_split sep (c # cs) =
     (case js_split sep cs of
        (x, xs) \<Rightarrow> if c = sep then ([], x # xs) else (c # x, xs))"

text \<open>The second element of a destructuring pattern \<open>[a, b]\<close>, given the parts after the first.\<close>

fun second_part :: "string list \<Rightarrow> string option" where
  "second_part [] = None"
| "second_part (v # _) = Some v"

definition add_param :: "(string \<times> string option) list \<Rightarrow> string \<Rightarrow> (string \<times> string option) list" where
  "add_param ps param =
     (case js_split CHR ''='' param of
        (key, vals) \<Rightarrow> AList.update key (second_part vals) ps)"

definition digest :: "string \<Rightarrow> TypeDigest" where
  "digest t =
     (case js_split CHR '';'' t of
        (spec, params) \<Rightarrow>
          (case js_split CHR ''/'' spec of
             (ty, subs) \<Rightarrow>
               \<lparr>d_type = ty,
                d_subtype = second_part subs,
                d_parameters = foldl add_param [] params,
                d_q = 1,
                originalType = t\<rparr>))"

text \<open>\<open>function matchesParameters\<close>: every key of \<open>required\<close> has the same value in \<open>given\<close>.\<close>

definition matchesParameters :: "(string \<times> string) list \<Rightarrow> (string \<times> string option) list \<Rightarrow> bool" where
  "matchesParameters required given =
     list_all (\<lambda>key. map_of given key = Some (map_of required key)) (object_keys required)"

text \<open>The predicate of \<open>specs.find\<close>.\<close>

definition spec_matches :: "TypeDigest \<Rightarrow> Accept \<Rightarrow> bool" where
  "spec_matches dg spec \<longleftrightarrow>
     type spec = ''*'' \<or>
     (type spec = d_type dg \<and>
      (subtype spec = ''*'' \<or>
       (Some (subtype spec) = d_subtype dg \<and>
        matchesParameters (parameters spec) (d_parameters dg))))"

text \<open>The loop over \<open>typeDigests\<close>, on the pair \<open>(bestQ, bestMediaType)\<close>.\<close>

fun best_match :: "Accept list \<Rightarrow> TypeDigest list \<Rightarrow> rat \<times> jsvalue \<Rightarrow> rat \<times> jsvalue" where
  "best_match specs [] best = best"
| "best_match specs (dg # dgs) (bestQ, bestMediaType) =
     (case find (spec_matches dg) specs of
        None \<Rightarrow> best_match specs dgs (bestQ, bestMediaType)
      | Some highestPrecedenceSpecMatch \<Rightarrow>
          if falsy bestMediaType \<or> q highestPrecedenceSpecMatch > bestQ then
            best_match specs dgs (q highestPrecedenceSpecMatch, String (originalType dg))
          else best_match specs dgs (bestQ, bestMediaType))"

text \<open>
  Modelled from the spec: the cache \<open>LRU\<close> of the package \<open>@graphile/lru\<close>, which is not
  among the sources. It is a mapping from header to result bounded by \<open>maxLength\<close>
  entries, here a list with the most recently used entry first: a lookup that hits
  moves the entry to the front, an insertion goes to the front and evicts the least
  recently used entries beyond the bound.
\<close>

type_synonym LRU = "(string \<times> jsvalue) list"

definition maxLength :: nat where
  "maxLength = 50"

definition lru_get :: "LRU \<Rightarrow> string \<Rightarrow> jsvalue \<times> LRU" where
  "lru_get c k =
     (case map_of c k of
        None \<Rightarrow> (Undefined, c)
      | Some v \<Rightarrow> (v, (k, v) # AList.delete k c))"

definition lru_set :: "LRU \<Rightarrow> string \<Rightarrow> jsvalue \<Rightarrow> LRU" where
  "lru_set c k v = take maxLength ((k, v) # AList.delete k c)"

text \<open>What the closure \<open>preferredAccept\<close> captures.\<close>

record matcher =
  mediaTypes :: "string list"
  typeDigests :: "TypeDigest list"
  lru :: LRU

definition makeAcceptMatcher :: "string list \<Rightarrow> matcher" where
  "makeAcceptMatcher ts = \<lparr>mediaTypes = ts, typeDigests = map digest ts, lru = []\<rparr>"

text \<open>\<open>preferredAccept\<close>: the matcher after the call, and the error thrown or the value returned.\<close>

definition preferredAccept ::
  "(string \<Rightarrow> jsnum) \<Rightarrow> matcher \<Rightarrow> string option \<Rightarrow> matcher \<times> (error + jsvalue)" where
  "preferredAccept pf m acceptHeader =
     (case acceptHeader of
        None \<Rightarrow> (m, Inr (case mediaTypes m of [] \<Rightarrow> Undefined | t # _ \<Rightarrow> String t))
      | Some h \<Rightarrow>
          (case lru_get (lru m) h of
             (existing, c) \<Rightarrow>
               if existing \<noteq> Undefined then (m\<lparr>lru := c\<rparr>, Inr existing)
               else
                 (case parseAccepts pf h of
                    Inl e \<Rightarrow> (m\<lparr>lru := c\<rparr>, Inl e)
                  | Inr specs \<Rightarrow>
                      (case best_match specs (typeDigests m) (0, Null) of
                         (bestQ, bestMediaType) \<Rightarrow>
                           (m\<lparr>lru := lru_set c h bestMediaType\<rparr>, Inr bestMediaType)))))"

subsection \<open>The built-in \<open>parseFloat\<close>, for concrete examples\<close>

text \<open>
  A model of the language's \<open>parseFloat\<close> on 8-bit strings: leading white space is
  dropped, then the longest prefix that is a decimal literal (sign, digits, fraction,
  exponent, or \<open>Infinity\<close>) is read; \<open>NaN\<close> when there is none. It yields the exact
  value of the literal, where the built-in yields the double nearest to it. The
  theorems below hold for every \<open>pf\<close>; this model only instantiates them.
\<close>

definition isStrWhiteSpaceChar :: "char \<Rightarrow> bool" where
  "isStrWhiteSpaceChar c \<longleftrightarrow>
     (charCode c \<ge> 9 \<and> charCode c \<le> 13) \<or> charCode c = 32 \<or> charCode c = 160"

definition isDigit :: "char \<Rightarrow> bool" where
  "isDigit c \<longleftrightarrow> charCode c \<ge> 48 \<and> charCode c \<le> 57"

definition digits_value :: "string \<Rightarrow> nat" where
  "digits_value ds = foldl (\<lambda>n c. 10 * n + (charCode c - 48)) 0 ds"

fun strip_sign :: "string \<Rightarrow> bool \<times> string" where
  "strip_sign [] = (False, [])"
| "strip_sign (c # s) =
     (if c = CHR ''-'' then (True, s) else if c = CHR ''+'' then (False, s) else (False, c # s))"

definition exponent_part :: "string \<Rightarrow> int" where
  "exponent_part s =
     (case s of
        [] \<Rightarrow> 0
      | e # s' \<Rightarrow>
          if e = CHR ''e'' \<or> e = CHR ''E'' then
            (case strip_sign s' of
               (neg, s'') \<Rightarrow>
                 (if neg then - int (digits_value (takeWhile isDigit s''))
                  else int (digits_value (takeWhile isDigit s''))))
          else 0)"

definition pow10 :: "int \<Rightarrow> rat" where
  "pow10 e = (if e \<ge> 0 then 10 ^ nat e else 1 / 10 ^ nat (- e))"

definition unsigned_literal :: "string \<Rightarrow> jsnum" where
  "unsigned_literal s =
     (if take 8 s = ''Infinity'' then PosInfinity
      else
        (case (takeWhile isDigit s, dropWhile isDigit s) of
           (ip, r1) \<Rightarrow>
             (case (case r1 of
                      [] \<Rightarrow> ([], [])
                    | c # r \<Rightarrow>
                        if c = CHR ''.'' then (takeWhile isDigit r, dropWhile isDigit r)
                        else ([], r1)) of
                (fp, r2) \<Rightarrow>
                  if ip = [] \<and> fp = [] then NaN
                  else Finite (of_nat (digits_value (ip @ fp)) / 10 ^ length fp
                               * pow10 (exponent_part r2)))))"

fun js_negate :: "jsnum \<Rightarrow> jsnum" where
  "js_negate NaN = NaN"
| "js_negate NegInfinity = PosInfinity"
| "js_negate PosInfinity = NegInfinity"
| "js_negate (Finite r) = Finite (- r)"

definition parseFloat :: "string \<Rightarrow> jsnum" where
  "parseFloat s =
     (case strip_sign (dropWhile isStrWhiteSpaceChar s) of
        (neg, u) \<Rightarrow> if neg then js_negate (unsigned_literal u) else unsigned_literal u)"

subsection \<open>Histories of a matcher\<close>

text \<open>The matcher after a sequence of calls of \<open>preferredAccept\<close>, each with a header
  or without one; a call that throws leaves the matcher to the calls after it.\<close>

fun calls :: "(string \<Rightarrow> jsnum) \<Rightarrow> matcher \<Rightarrow> string option list \<Rightarrow> matcher" where
  "calls pf m [] = m"
| "calls pf m (h # hs) = calls pf (fst (preferredAccept pf m h)) hs"

subsection \<open>The specification's notions, for comparison with the code\<close>

text \<open>
  The selection rule in the specification's words: among the digests that have a
  matching range, each paired with its first matching range, the one whose range has
  the highest \<open>q\<close>; the earliest of them on a tie; \<open>null\<close> when no digest matches.
\<close>

definition matching_digests :: "Accept list \<Rightarrow> TypeDigest list \<Rightarrow> (TypeDigest \<times> Accept) list" where
  "matching_digests specs dgs =
     concat (map (\<lambda>dg. case find (spec_matches dg) specs of
                          None \<Rightarrow> []
                        | Some r \<Rightarrow> [(dg, r)]) dgs)"

definition highest_q :: "(TypeDigest \<times> Accept) list \<Rightarrow> rat" where
  "highest_q ms = Max (set (map (\<lambda>(dg, r). q r) ms))"


text \<open>
  Specificity in the specification's words: the number of components that are not
  \<open>*\<close>, and, for equal components, a strict superset of parameters.
\<close>

definition components :: "Accept \<Rightarrow> nat" where
  "components a =
     (if type a \<noteq> ''*'' then 1 else 0) + (if subtype a \<noteq> ''*'' then 1 else 0)"

definition strict_superset_parameters :: "Accept \<Rightarrow> Accept \<Rightarrow> bool" where
  "strict_superset_parameters a b \<longleftrightarrow>
     list_all (\<lambda>k. map_of (parameters a) k = map_of (parameters b) k)
       (object_keys (parameters b)) \<and>
     list_ex (\<lambda>k. k \<notin> set (object_keys (parameters b))) (object_keys (parameters a))"

definition more_components :: "Accept \<Rightarrow> Accept \<Rightarrow> bool" where
  "more_components a b \<longleftrightarrow> components a > components b"

definition same_components_more_parameters :: "Accept \<Rightarrow> Accept \<Rightarrow> bool" where
  "same_components_more_parameters a b \<longleftrightarrow>
     type a = type b \<and> subtype a = subtype b \<and> strict_superset_parameters a b"

text \<open>A parameters object with \<open>n\<close> keys: \<open>a\<close>, \<open>aa\<close>, \<open>aaa\<close>, and so on, each with an
  empty value.\<close>

definition wide_parameters :: "nat \<Rightarrow> (string \<times> string) list" where
  "wide_parameters n = map (\<lambda>i. (replicate (Suc i) CHR ''a'', '''')) [0..<n]"

text \<open>
  The token bytes of the specification (section 4.1): the set
  \<open>!#$%&'*+-.^_`|~\<close> plus ALPHA and DIGIT.
\<close>

definition tchar :: "nat \<Rightarrow> bool" where
  "tchar cc \<longleftrightarrow>
     cc = 33 \<or> (cc \<ge> 35 \<and> cc \<le> 39) \<or> cc = 42 \<or> cc = 43 \<or> cc = 45 \<or> cc = 46 \<or>
     (cc \<ge> 48 \<and> cc \<le> 57) \<or> (cc \<ge> 65 \<and> cc \<le> 90) \<or>
     cc = 94 \<or> cc = 95 \<or> cc = 96 \<or> (cc \<ge> 97 \<and> cc \<le> 122) \<or> cc = 124 \<or> cc = 126"

text \<open>
  The state table of the specification (section 4.2) as an acceptor without data:
  the next state and the number of further bytes read, or \<open>None\<close> where the table
  says fail. After \<open>*/\<close> the table asks for \<open>*\<close> or a token byte.
\<close>

definition table_step :: "State \<Rightarrow> char \<Rightarrow> string \<Rightarrow> (State \<times> nat) option" where
  "table_step s c rest =
     (case s of
        EXPECT_TYPE \<Rightarrow>
          if isWhitespace (charCode c) then Some (EXPECT_TYPE, 0)
          else if charCode c = ASTERISK then
            (case rest of
               [] \<Rightarrow> None
             | n # rest' \<Rightarrow>
                 (case rest' of
                    [] \<Rightarrow> None
                  | a # _ \<Rightarrow>
                      if charCode n = SLASH then
                        (if charCode a = ASTERISK then Some (EXPECT_COMMA_OR_SEMICOLON, 2)
                         else if tchar (charCode a) then Some (EXPECT_SUBTYPE, 1)
                         else None)
                      else None))
          else if tchar (charCode c) then Some (CONTINUE_TYPE, 0)
          else None
      | CONTINUE_TYPE \<Rightarrow>
          if tchar (charCode c) then Some (CONTINUE_TYPE, 0)
          else if charCode c = SLASH then Some (EXPECT_SUBTYPE, 0)
          else None
      | EXPECT_SUBTYPE \<Rightarrow>
          if tchar (charCode c) then Some (CONTINUE_SUBTYPE, 0) else None
      | CONTINUE_SUBTYPE \<Rightarrow>
          if tchar (charCode c) then Some (CONTINUE_SUBTYPE, 0)
          else if charCode c = SEMICOLON then Some (EXPECT_PARAMETER_NAME, 0)
          else if charCode c = COMMA then Some (EXPECT_TYPE, 0)
          else None
      | EXPECT_COMMA_OR_SEMICOLON \<Rightarrow>
          if isWhitespace (charCode c) then Some (EXPECT_COMMA_OR_SEMICOLON, 0)
          else if charCode c = SEMICOLON then Some (EXPECT_PARAMETER_NAME, 0)
          else if charCode c = COMMA then Some (EXPECT_TYPE, 0)
          else None
      | EXPECT_PARAMETER_NAME \<Rightarrow>
          if isOWS (charCode c) then Some (EXPECT_PARAMETER_NAME, 0)
          else if tchar (charCode c) then Some (CONTINUE_PARAMETER_NAME, 0)
          else None
      | CONTINUE_PARAMETER_NAME \<Rightarrow>
          if tchar (charCode c) then Some (CONTINUE_PARAMETER_NAME, 0)
          else if charCode c = EQUALS then Some (EXPECT_PARAMETER_VALUE, 0)
          else None
      | EXPECT_PARAMETER_VALUE \<Rightarrow>
          if charCode c = DOUBLE_QUOTE then Some (CONTINUE_QUOTED_PARAMETER_VALUE, 0)
          else if tchar (charCode c) then Some (CONTINUE_PARAMETER_VALUE, 0)
          else None
      | CONTINUE_PARAMETER_VALUE \<Rightarrow>
          if tchar (charCode c) then Some (CONTINUE_PARAMETER_VALUE, 0)
          else if charCode c = SEMICOLON then Some (EXPECT_PARAMETER_NAME, 0)
          else if charCode c = COMMA then Some (EXPECT_TYPE, 0)
          else None
      | CONTINUE_QUOTED_PARAMETER_VALUE \<Rightarrow>
          if charCode c = DOUBLE_QUOTE then Some (EXPECT_COMMA_OR_SEMICOLON, 0)
          else if charCode c = BACKSLASH then
            (case rest of [] \<Rightarrow> None | _ # _ \<Rightarrow> Some (CONTINUE_QUOTED_PARAMETER_VALUE, 1))
          else Some (CONTINUE_QUOTED_PARAMETER_VALUE, 0))"

function table_permits :: "State \<Rightarrow> string \<Rightarrow> bool" where
  "table_permits s [] = True"
| "table_permits s (c # cs) =
     (case table_step s c cs of
        None \<Rightarrow> False
      | Some (s', k) \<Rightarrow> table_permits s' (drop k cs))"
  by pat_completeness auto
termination
  by (relation "measure (\<lambda>(s, cs). length cs)") auto

text \<open>The bytes of the totality property: token bytes, \<open>/\<close>, \<open>;\<close>, \<open>=\<close>, \<open>,\<close> and optional
  white space.\<close>

definition plain_byte :: "char \<Rightarrow> bool" where
  "plain_byte c \<longleftrightarrow>
     tchar (charCode c) \<or> charCode c = SLASH \<or> charCode c = SEMICOLON \<or>
     charCode c = EQUALS \<or> charCode c = COMMA \<or> isOWS (charCode c)"

text \<open>A media type string whose type part, the text before the first \<open>/\<close> or \<open>;\<close>,
  is written \<open>*\<close>.\<close>

definition wildcard_typed :: "string \<Rightarrow> bool" where
  "wildcard_typed t \<longleftrightarrow> t = ''*'' \<or> take 2 t = ''*/'' \<or> take 2 t = ''*;''"

text \<open>The parser after reading \<open>a/b;c=\<close>.\<close>

definition after_equals :: parser where
  "after_equals =
     \<lparr>accepts = [], state = EXPECT_PARAMETER_VALUE,
      currentAccept = Some \<lparr>type = ''a'', subtype = ''b'', parameters = [(''c'', '''')], q = 1\<rparr>,
      currentParameterName = ''c''\<rparr>"

text \<open>The server list of the specification's scenarios.\<close>

definition scenario_types :: "string list" where
  "scenario_types = [''application/json'', ''application/graphql-response+json'', ''text/html'']"

text \<open>A string of token bytes (possibly empty), and the parsers whose ranges, committed
  or current, all have such a subtype.\<close>

definition token_string :: "string \<Rightarrow> bool" where
  "token_string s \<longleftrightarrow> list_all (\<lambda>c. isToken (charCode c)) s"



text \<open>The header \<open>a/b;q="0.5",c/d\<close>.\<close>

definition quoted_half :: string where
  "quoted_half = ''a/b;q='' @ [CHR 0x22] @ ''0.5'' @ [CHR 0x22] @ '',c/d''"

text \<open>
  The invariant of the cache: every entry holds, for its header, the value that the
  cache-miss path of \<open>preferredAccept\<close> computes for it, and no entry holds \<open>undefined\<close>.
\<close>

definition computed :: "(string \<Rightarrow> jsnum) \<Rightarrow> TypeDigest list \<Rightarrow> string \<Rightarrow> jsvalue \<Rightarrow> bool" where
  "computed pf dgs h v \<longleftrightarrow>
     (case parseAccepts pf h of
        Inl e \<Rightarrow> False
      | Inr specs \<Rightarrow> v = snd (best_match specs dgs (0, Null)))"

definition cache_sound :: "(string \<Rightarrow> jsnum) \<Rightarrow> matcher \<Rightarrow> bool" where
  "cache_sound pf m \<longleftrightarrow>
     list_all (\<lambda>(h, v). v \<noteq> Undefined \<and> computed pf (typeDigests m) h v) (lru m)"

text \<open>
  The parsers that a header without quotes reaches: never inside a quoted value, with
  a current range outside \<open>EXPECT_TYPE\<close>, with a parameter name of at least one byte
  once a name is being read and of at least two bytes in \<open>CONTINUE_PARAMETER_VALUE\<close>,
  and with a current range whose parameter \<open>q\<close> is absent or empty. A parser has
  started when it has committed a range or is reading one.
\<close>

definition q_untouched :: "Accept \<Rightarrow> bool" where
  "q_untouched a \<longleftrightarrow>
     map_of (parameters a) ''q'' = None \<or> map_of (parameters a) ''q'' = Some []"

definition plain_parser :: "parser \<Rightarrow> bool" where
  "plain_parser st \<longleftrightarrow>
     state st \<noteq> CONTINUE_QUOTED_PARAMETER_VALUE \<and>
     (state st = EXPECT_TYPE \<or> currentAccept st \<noteq> None) \<and>
     (state st = CONTINUE_PARAMETER_NAME \<or> state st = EXPECT_PARAMETER_VALUE \<longrightarrow>
        currentParameterName st \<noteq> []) \<and>
     (state st = CONTINUE_PARAMETER_VALUE \<longrightarrow> length (currentParameterName st) \<ge> 2) \<and>
     (case currentAccept st of None \<Rightarrow> True | Some a \<Rightarrow> q_untouched a)"

definition started :: "parser \<Rightarrow> bool" where
  "started st \<longleftrightarrow> accepts st \<noteq> [] \<or> state st \<noteq> EXPECT_TYPE"

text \<open>A range whose \<open>q\<close> lies in \<open>[0, 1]\<close>, and the parsers whose committed ranges have
  such a \<open>q\<close> and no parameter \<open>q\<close> with a value, and whose current range has such a \<open>q\<close>.\<close>

definition q_in_range :: "Accept \<Rightarrow> bool" where
  "q_in_range a \<longleftrightarrow> 0 \<le> q a \<and> q a \<le> 1"

definition committed_ok :: "parser \<Rightarrow> bool" where
  "committed_ok st \<longleftrightarrow>
     list_all (\<lambda>a. q_untouched a \<and> q_in_range a) (accepts st) \<and>
     (case currentAccept st of None \<Rightarrow> True | Some a \<Rightarrow> q_in_range a)"


section \<open>Properties\<close>

subsection \<open>Character classes\<close>

lemma isToken_tchar: "isToken cc \<longleftrightarrow> tchar cc \<or> cc = SLASH"
  unfolding isToken_def tchar_def SLASH_def by arith

lemma special_not_token:
  "\<not> isToken DOUBLE_QUOTE" "\<not> isToken EQUALS" "\<not> isToken SEMICOLON" "\<not> isToken COMMA"
  "\<not> isToken SPACE" "\<not> isToken HORIZONTAL_TAB" "\<not> isToken BACKSLASH" "isToken ASTERISK"
  by (simp_all add: isToken_def DOUBLE_QUOTE_def EQUALS_def SEMICOLON_def COMMA_def SPACE_def
      HORIZONTAL_TAB_def BACKSLASH_def ASTERISK_def)

subsection \<open>Scenario 3: the header \<open>text/html\<close>\<close>

text \<open>
  C1. With the server list \<open>application/json\<close>, \<open>application/graphql-response+json\<close>,
  \<open>text/html\<close>, the specification expects \<open>select\<close> on the header \<open>text/html\<close> to
  return \<open>text/html\<close>. The code returns \<open>null\<close>: \<open>CONTINUE_SUBTYPE\<close> appends the bytes
  after the first byte of the subtype to \<open>type\<close>, so the header parses to the range
  \<open>texttml/h\<close>, which matches no digest.
\<close>

theorem select_text_html_returns_null:
  "parseAccepts pf ''text/html'' =
     Inr [\<lparr>type = ''texttml'', subtype = ''h'', parameters = [], q = 1\<rparr>] \<and>
   snd (preferredAccept pf (makeAcceptMatcher scenario_types) (Some ''text/html'')) = Inr Null"
  by code_simp

subsection \<open>The state \<open>EXPECT_PARAMETER_VALUE\<close>\<close>

text \<open>
  C2, as stated, fails. In \<open>EXPECT_PARAMETER_VALUE\<close> the byte \<open>=\<close>, which is neither a
  double quote nor a token byte, does not fail the parse: the parser stays in the
  state. And a token byte leaves the parameter's value as it is and becomes the last
  byte of \<open>currentParameterName\<close>.
\<close>

theorem expect_parameter_value_counterexample:
  "charCode CHR ''='' \<noteq> DOUBLE_QUOTE \<and> \<not> isToken (charCode CHR ''='') \<and>
   step parseFloat after_equals CHR ''='' ''d'' = Inr (after_equals, 0) \<and>
   isToken (charCode CHR ''d'') \<and>
   step parseFloat after_equals CHR ''d'' '''' =
     Inr (\<lparr>accepts = [], state = CONTINUE_PARAMETER_VALUE,
           currentAccept =
             Some \<lparr>type = ''a'', subtype = ''b'', parameters = [(''c'', '''')], q = 1\<rparr>,
           currentParameterName = ''cd''\<rparr>, 0)"
  by (simp add: after_equals_def step_def charCode_def DOUBLE_QUOTE_def EQUALS_def isToken_def)

text \<open>
  C2, amended. In \<open>EXPECT_PARAMETER_VALUE\<close> a double quote leads to
  \<open>CONTINUE_QUOTED_PARAMETER_VALUE\<close>; a token byte leads to \<open>CONTINUE_PARAMETER_VALUE\<close>;
  the byte \<open>=\<close> is skipped, the parser staying as it is; every other byte fails the
  parse with \<open>UnexpectedCharacter\<close>.
\<close>

theorem expect_parameter_value_transitions:
  assumes "state st = EXPECT_PARAMETER_VALUE"
  shows "(charCode c = DOUBLE_QUOTE \<longrightarrow>
            step pf st c rest = Inr (st\<lparr>state := CONTINUE_QUOTED_PARAMETER_VALUE\<rparr>, 0)) \<and>
         (isToken (charCode c) \<longrightarrow>
            (\<exists>st'. step pf st c rest = Inr (st', 0) \<and> state st' = CONTINUE_PARAMETER_VALUE)) \<and>
         (charCode c = EQUALS \<longrightarrow> step pf st c rest = Inr (st, 0)) \<and>
         (charCode c \<noteq> DOUBLE_QUOTE \<and> \<not> isToken (charCode c) \<and> charCode c \<noteq> EQUALS \<longrightarrow>
            step pf st c rest = Inl (UnexpectedCharacter c))"
proof -
  have ne: "EQUALS \<noteq> DOUBLE_QUOTE"
    by (simp add: DOUBLE_QUOTE_def EQUALS_def)
  have same: "st\<lparr>state := EXPECT_PARAMETER_VALUE\<rparr> = st"
    using assms by simp
  show ?thesis
    using assms special_not_token(1,2) ne same by (auto simp: step_def)
qed

text \<open>C2, the amended statement at the parser that has read \<open>a/b;c=\<close>, for a double
  quote, the token byte \<open>d\<close>, the byte \<open>=\<close> and a space.\<close>

theorem expect_parameter_value_transitions_witness:
  "step parseFloat after_equals (CHR 0x22) '''' =
     Inr (after_equals\<lparr>state := CONTINUE_QUOTED_PARAMETER_VALUE\<rparr>, 0) \<and>
   (\<exists>st'. step parseFloat after_equals CHR ''d'' '''' = Inr (st', 0) \<and>
          state st' = CONTINUE_PARAMETER_VALUE) \<and>
   step parseFloat after_equals CHR ''='' '''' = Inr (after_equals, 0) \<and>
   step parseFloat after_equals CHR '' '' '''' = Inl (UnexpectedCharacter CHR '' '')"
proof -
  have st: "state after_equals = EXPECT_PARAMETER_VALUE"
    by (simp add: after_equals_def)
  have cs: "charCode (CHR 0x22) = DOUBLE_QUOTE" "isToken (charCode CHR ''d'')"
    "charCode CHR ''='' = EQUALS" "charCode CHR '' '' \<noteq> DOUBLE_QUOTE"
    "\<not> isToken (charCode CHR '' '')" "charCode CHR '' '' \<noteq> EQUALS"
    by (simp_all add: charCode_def DOUBLE_QUOTE_def EQUALS_def isToken_def)
  show ?thesis
    using expect_parameter_value_transitions [OF st, where pf = parseFloat and rest = "''''" and c = "CHR 0x22"]
      expect_parameter_value_transitions [OF st, where pf = parseFloat and rest = "''''" and c = "CHR ''d''"]
      expect_parameter_value_transitions [OF st, where pf = parseFloat and rest = "''''" and c = "CHR ''=''"]
      expect_parameter_value_transitions [OF st, where pf = parseFloat and rest = "''''" and c = "CHR '' ''"]
      cs
    by blast
qed

subsection \<open>The parameter \<open>q\<close>\<close>

text \<open>
  C3. The specification has the parameter \<open>q\<close> taken out of \<open>parameters\<close> and parsed
  into the field \<open>q\<close> when a range is committed. On the header \<open>a/b;q=0.5\<close> the code
  commits a range that still holds the key \<open>q\<close>, with the empty value, holds a second
  key \<open>q0\<close> with the value \<open>undefined.5\<close>, and has \<open>q = 1\<close>: \<open>EXPECT_PARAMETER_VALUE\<close>
  appends the first byte of the value to \<open>currentParameterName\<close>, and \<open>next\<close> skips a
  \<open>q\<close> whose value is the empty string.
\<close>

theorem q_parameter_left_in_parameters:
  "parseAccepts pf ''a/b;q=0.5'' =
     Inr [\<lparr>type = ''a'', subtype = ''b'',
           parameters = [(''q'', ''''), (''q0'', ''undefined.5'')], q = 1\<rparr>]"
  by code_simp

subsection \<open>The digester\<close>

lemma js_split_fst: "fst (js_split sep t) = takeWhile (\<lambda>c. c \<noteq> sep) t"
  by (induction t) (auto split: prod.splits)

lemma d_type_digest:
  "d_type (digest t) = takeWhile (\<lambda>c. c \<noteq> CHR ''/'') (takeWhile (\<lambda>c. c \<noteq> CHR '';'') t)"
proof -
  have "d_type (digest t) = fst (js_split CHR ''/'' (fst (js_split CHR '';'' t)))"
    by (simp add: digest_def split: prod.splits)
  then show ?thesis by (simp add: js_split_fst)
qed

lemma d_type_wildcard: "d_type (digest t) = ''*'' \<longleftrightarrow> wildcard_typed t"
proof (cases t)
  case Nil
  then show ?thesis by (simp add: d_type_digest wildcard_typed_def)
next
  case outer: (Cons c t')
  show ?thesis
  proof (cases t')
    case Nil
    with outer show ?thesis by (auto simp: d_type_digest wildcard_typed_def)
  next
    case (Cons c' t'')
    with outer show ?thesis by (auto simp: d_type_digest wildcard_typed_def)
  qed
qed

text \<open>
  C5, as stated, fails: the digester copies the type part of the string it is given,
  and for the media type \<open>*/*\<close> that is \<open>*\<close>.
\<close>

theorem digest_wildcard_counterexample:
  "typeDigests (makeAcceptMatcher [''*/*'']) =
     [\<lparr>d_type = ''*'', d_subtype = Some ''*'', d_parameters = [], d_q = 1,
       originalType = ''*/*''\<rparr>]"
  by (simp add: makeAcceptMatcher_def digest_def)

text \<open>
  C5, amended. The digester produces no digest whose type is \<open>*\<close> exactly when no
  media type string given at construction is written with the type \<open>*\<close> (the string
  \<open>*\<close>, or one that begins with \<open>*/\<close> or \<open>*;\<close>).
\<close>

theorem digest_type_wildcard_iff:
  "list_all (\<lambda>dg. d_type dg \<noteq> ''*'') (typeDigests (makeAcceptMatcher ts)) \<longleftrightarrow>
   list_all (\<lambda>t. \<not> wildcard_typed t) ts"
  by (induction ts) (simp_all add: makeAcceptMatcher_def d_type_wildcard)

text \<open>C5, the amended statement at the server list of the scenarios.\<close>

theorem digest_type_wildcard_iff_witness:
  "list_all (\<lambda>dg. d_type dg \<noteq> ''*'') (typeDigests (makeAcceptMatcher scenario_types))"
  using digest_type_wildcard_iff [of scenario_types]
  by (simp add: scenario_types_def wildcard_typed_def)

subsection \<open>Wildcard types\<close>

lemma map_sum_Inr: "map_sum id g x = Inr y \<longleftrightarrow> (\<exists>s. x = Inr s \<and> y = g s)"
  by (cases x) auto

lemma token_string_simps [simp]:
  "token_string []" "isToken (charCode CHR ''*'')" "token_string [c] = isToken (charCode c)"
  by (simp_all add: token_string_def isToken_def charCode_def)




lemma set_sort_accepts [simp]: "set (sort_accepts as) = set as"
  by (simp add: sort_accepts_def)

text \<open>How \<open>parseAccepts\<close> ends: the loop, the commit of the open range, the sort.\<close>

lemma parseAccepts_InrE:
  assumes "parseAccepts pf h = Inr rs"
  obtains st st' where "parse_loop pf initial_parser h = Inr st"
    and "(if state st \<noteq> EXPECT_TYPE then next' pf st else Inr st) = Inr st'"
    and "rs = sort_accepts (accepts st')"
  using assms by (auto simp: parseAccepts_def split: sum.splits)




text \<open>The header \<open>*/*,*/j\<close>, evaluated: the loop, then the commit and the sort.\<close>

lemma two_wildcards_loop:
  "parse_loop parseFloat initial_parser ''*/*,*/j'' =
     Inr \<lparr>accepts = [\<lparr>type = ''*'', subtype = ''*'', parameters = [], q = 1\<rparr>],
          state = CONTINUE_SUBTYPE,
          currentAccept = Some \<lparr>type = ''*'', subtype = ''j'', parameters = [], q = 1\<rparr>,
          currentParameterName = ''''\<rparr>"
  by code_simp

lemma two_wildcards_sorted:
  "sort_accepts [\<lparr>type = ''*'', subtype = ''*'', parameters = [], q = 1\<rparr>,
                 \<lparr>type = ''*'', subtype = ''j'', parameters = [], q = 1\<rparr>] =
     [\<lparr>type = ''*'', subtype = ''j'', parameters = [], q = 1\<rparr>,
      \<lparr>type = ''*'', subtype = ''*'', parameters = [], q = 1\<rparr>]"
  by (simp add: sort_accepts_def score_def object_keys_def)

lemma two_wildcards_parse:
  "parseAccepts parseFloat ''*/*,*/j'' =
     Inr [\<lparr>type = ''*'', subtype = ''j'', parameters = [], q = 1\<rparr>,
          \<lparr>type = ''*'', subtype = ''*'', parameters = [], q = 1\<rparr>]"
  unfolding parseAccepts_def two_wildcards_loop
  by (simp add: next'_def push_accept_def two_wildcards_sorted)


subsection \<open>Precedence\<close>

lemma sorted_sort_accepts: "sorted_wrt (\<lambda>a b. score a \<ge> score b) (sort_accepts as)"
proof -
  have "sorted (map (\<lambda>a. - int (score a)) (sort_accepts as))"
    unfolding sort_accepts_def by (rule sorted_sort_key)
  then show ?thesis by (simp add: sorted_map)
qed

lemma length_object_keys: "length (object_keys ps) = card (fst ` set ps)"
  by (simp add: object_keys_def length_remdups_card_conv)

lemma set_object_keys [simp]: "set (object_keys ps) = fst ` set ps"
  by (simp add: object_keys_def)

lemma strict_superset_more_keys:
  assumes "strict_superset_parameters a b"
  shows "length (object_keys (parameters b)) < length (object_keys (parameters a))"
proof -
  let ?A = "fst ` set (parameters a)" and ?B = "fst ` set (parameters b)"
  have sub: "?B \<subseteq> ?A"
  proof
    fix k assume k: "k \<in> ?B"
    then have "map_of (parameters b) k \<noteq> None"
      by (simp add: map_of_eq_None_iff)
    moreover from assms k have "map_of (parameters a) k = map_of (parameters b) k"
      by (auto simp: strict_superset_parameters_def list_all_iff)
    ultimately have "map_of (parameters a) k \<noteq> None" by simp
    then show "k \<in> ?A"
      by (simp only: map_of_eq_None_iff not_not)
  qed
  from assms obtain k where "k \<in> ?A" "k \<notin> ?B"
    by (auto simp: strict_superset_parameters_def list_ex_iff)
  with sub have "?B \<subset> ?A" by auto
  then have "card ?B < card ?A"
    by (intro psubset_card_mono) simp_all
  then show ?thesis by (simp add: length_object_keys)
qed

lemma more_components_score:
  assumes "more_components a b"
    and "length (object_keys (parameters b)) < length (object_keys (parameters a)) + 1000"
  shows "score b < score a"
  using assms by (auto simp: more_components_def components_def score_def split: if_splits)

lemma same_components_score:
  assumes "same_components_more_parameters a b"
  shows "score b < score a"
  using strict_superset_more_keys [of a b] assms
  by (simp add: same_components_more_parameters_def score_def)

lemma object_keys_wide:
  "object_keys (wide_parameters n) = map (\<lambda>i. replicate (Suc i) CHR ''a'') [0..<n]"
proof -
  have "inj_on (\<lambda>i. replicate (Suc i) CHR ''a'') (set [0..<n])"
    by (rule inj_onI) (metis length_replicate nat.inject)
  then have "distinct (map (\<lambda>i. replicate (Suc i) CHR ''a'') [0..<n])"
    by (simp add: distinct_map)
  moreover have "map fst (wide_parameters n) = map (\<lambda>i. replicate (Suc i) CHR ''a'') [0..<n]"
    by (simp add: wide_parameters_def comp_def)
  ultimately show ?thesis
    by (simp add: object_keys_def)
qed

text \<open>
  C7, as stated, fails in its second half. The score adds the number of parameters to
  the weights 1000 and 1000000, so a range with a thousand parameters makes up for a
  component: \<open>a/*\<close> has more components that are not \<open>*\<close> than \<open>*/*\<close> with the
  parameters \<open>a\<close>, \<open>aa\<close>, ... (a thousand of them), and both score 1000.
\<close>

theorem precedence_counterexample:
  "more_components \<lparr>type = ''a'', subtype = ''*'', parameters = [], q = 1\<rparr>
     \<lparr>type = ''*'', subtype = ''*'', parameters = wide_parameters 1000, q = 1\<rparr> \<and>
   score \<lparr>type = ''a'', subtype = ''*'', parameters = [], q = 1\<rparr> = 1000 \<and>
   score \<lparr>type = ''*'', subtype = ''*'', parameters = wide_parameters 1000, q = 1\<rparr> = 1000"
  by (simp add: more_components_def components_def score_def object_keys_wide)
    (simp add: object_keys_def)

text \<open>
  C7, amended. The parser returns the ranges in non-increasing order of score, where
  the score is 1000000 for a subtype that is not \<open>*\<close> plus 1000 for a type that is not
  \<open>*\<close> plus the number of keys of the parameters. For two ranges \<open>a\<close> and \<open>b\<close>, the
  score of \<open>a\<close> is strictly greater than the score of \<open>b\<close> when \<open>a\<close> has more
  components that are not \<open>*\<close> and \<open>b\<close> has fewer than 1000 parameters more than \<open>a\<close>,
  and when \<open>a\<close> has the components of \<open>b\<close> and a strict superset of its parameters.
\<close>

theorem precedence_sorted_and_monotone:
  "(parseAccepts pf h = Inr rs \<longrightarrow> sorted_wrt (\<lambda>a b. score a \<ge> score b) rs) \<and>
   (more_components a b \<and>
    length (object_keys (parameters b)) < length (object_keys (parameters a)) + 1000 \<longrightarrow>
      score a > score b) \<and>
   (same_components_more_parameters a b \<longrightarrow> score a > score b)"
proof (intro conjI impI)
  assume "parseAccepts pf h = Inr rs"
  then obtain st st' where "parse_loop pf initial_parser h = Inr st"
    and "(if state st \<noteq> EXPECT_TYPE then next' pf st else Inr st) = Inr st'"
    and "rs = sort_accepts (accepts st')"
    by (rule parseAccepts_InrE)
  then show "sorted_wrt (\<lambda>a b. score a \<ge> score b) rs"
    by (simp add: sorted_sort_accepts)
qed (auto intro: more_components_score same_components_score)

text \<open>C7, the amended statement at the header \<open>*/*,*/j\<close>, at \<open>a/b\<close> against \<open>a/*\<close>, and
  at \<open>a/b;c=d\<close> against \<open>a/b\<close>.\<close>

theorem precedence_sorted_and_monotone_witness:
  "sorted_wrt (\<lambda>a b. score a \<ge> score b)
     [\<lparr>type = ''*'', subtype = ''j'', parameters = [], q = 1\<rparr>,
      \<lparr>type = ''*'', subtype = ''*'', parameters = [], q = 1\<rparr>] \<and>
   score \<lparr>type = ''a'', subtype = ''b'', parameters = [], q = 1\<rparr> >
     score \<lparr>type = ''a'', subtype = ''*'', parameters = [], q = 1\<rparr> \<and>
   score \<lparr>type = ''a'', subtype = ''b'', parameters = [(''c'', ''d'')], q = 1\<rparr> >
     score \<lparr>type = ''a'', subtype = ''b'', parameters = [], q = 1\<rparr>"
proof -
  have more: "more_components \<lparr>type = ''a'', subtype = ''b'', parameters = [], q = 1\<rparr>
      \<lparr>type = ''a'', subtype = ''*'', parameters = [], q = 1\<rparr> \<and>
    length (object_keys (parameters \<lparr>type = ''a'', subtype = ''*'', parameters = [], q = 1\<rparr>))
      < length (object_keys (parameters \<lparr>type = ''a'', subtype = ''b'', parameters = [], q = 1\<rparr>)) + 1000"
    by (simp add: more_components_def components_def object_keys_def)
  have same: "same_components_more_parameters
      \<lparr>type = ''a'', subtype = ''b'', parameters = [(''c'', ''d'')], q = 1\<rparr>
      \<lparr>type = ''a'', subtype = ''b'', parameters = [], q = 1\<rparr>"
    by (simp add: same_components_more_parameters_def strict_superset_parameters_def
        object_keys_def)
  show ?thesis
    using two_wildcards_parse more same
      precedence_sorted_and_monotone [of parseFloat "''*/*,*/j''"
        "[\<lparr>type = ''*'', subtype = ''j'', parameters = [], q = 1\<rparr>,
          \<lparr>type = ''*'', subtype = ''*'', parameters = [], q = 1\<rparr>]"
        "\<lparr>type = ''a'', subtype = ''b'', parameters = [], q = 1\<rparr>"
        "\<lparr>type = ''a'', subtype = ''*'', parameters = [], q = 1\<rparr>"]
      precedence_sorted_and_monotone [of parseFloat "''*/*,*/j''"
        "[\<lparr>type = ''*'', subtype = ''j'', parameters = [], q = 1\<rparr>,
          \<lparr>type = ''*'', subtype = ''*'', parameters = [], q = 1\<rparr>]"
        "\<lparr>type = ''a'', subtype = ''b'', parameters = [(''c'', ''d'')], q = 1\<rparr>"
        "\<lparr>type = ''a'', subtype = ''b'', parameters = [], q = 1\<rparr>"]
    by blast
qed

subsection \<open>Selection\<close>

lemma matching_Nil [simp]: "matching_digests specs [] = []"
  by (simp add: matching_digests_def)


lemma highest_q_single [simp]: "highest_q [(dg, r)] = q r"
  by (simp add: highest_q_def)









lemma qh_loop: "parse_loop parseFloat initial_parser quoted_half =
  Inr \<lparr>accepts = [\<lparr>type = ''a'', subtype = ''b'', parameters = [], q = 1 / 2\<rparr>],
          state = CONTINUE_SUBTYPE,
          currentAccept = Some \<lparr>type = ''c'', subtype = ''d'', parameters = [], q = 1\<rparr>,
          currentParameterName = ''q''\<rparr>"
  by code_simp

lemma qh_sort: "sort_accepts [\<lparr>type = ''a'', subtype = ''b'', parameters = [], q = 1 / 2\<rparr>, \<lparr>type = ''c'', subtype = ''d'', parameters = [], q = 1\<rparr>]
   = [\<lparr>type = ''a'', subtype = ''b'', parameters = [], q = 1 / 2\<rparr>, \<lparr>type = ''c'', subtype = ''d'', parameters = [], q = 1\<rparr>]"
  by (simp add: sort_accepts_def score_def object_keys_def)

lemma qh_parse: "parseAccepts parseFloat quoted_half = Inr [\<lparr>type = ''a'', subtype = ''b'', parameters = [], q = 1 / 2\<rparr>, \<lparr>type = ''c'', subtype = ''d'', parameters = [], q = 1\<rparr>]"
  unfolding parseAccepts_def qh_loop
  by (simp add: next'_def push_accept_def qh_sort)




subsection \<open>The cache, errors and empty headers\<close>

lemma best_match_defined: "b \<noteq> Undefined \<Longrightarrow> snd (best_match specs dgs (bq, b)) \<noteq> Undefined"
  by (induction dgs arbitrary: bq b) (auto split: option.splits)

lemma set_delete_subset: "set (AList.delete k c) \<subseteq> set c"
  by (auto simp: AList.delete_eq)

lemma preferredAccept_frame:
  "typeDigests (fst (preferredAccept pf m h)) = typeDigests m \<and>
   mediaTypes (fst (preferredAccept pf m h)) = mediaTypes m"
  by (auto simp: preferredAccept_def split: option.splits prod.splits sum.splits)

lemma preferredAccept_sound:
  assumes "cache_sound pf m"
  shows "cache_sound pf (fst (preferredAccept pf m h))"
proof (cases h)
  case None
  with assms show ?thesis by (simp add: preferredAccept_def)
next
  case (Some hd)
  show ?thesis
  proof (cases "map_of (lru m) hd")
    case miss: None
    show ?thesis
    proof (cases "parseAccepts pf hd")
      case (Inl e)
      with miss Some assms show ?thesis
        by (simp add: preferredAccept_def lru_get_def cache_sound_def)
    next
      case (Inr specs)
      obtain bq b where bm: "best_match specs (typeDigests m) (0, Null) = (bq, b)"
        by (cases "best_match specs (typeDigests m) (0, Null)")
      have b: "b \<noteq> Undefined"
        using best_match_defined [of Null specs "typeDigests m" 0] bm by simp
      have fst_eq: "fst (preferredAccept pf m h) = m\<lparr>lru := lru_set (lru m) hd b\<rparr>"
        using Some miss Inr bm by (simp add: preferredAccept_def lru_get_def)
      have "set (lru_set (lru m) hd b) \<subseteq> insert (hd, b) (set (lru m))"
        using set_delete_subset [of hd "lru m"]
        by (auto simp: lru_set_def dest!: in_set_takeD)
      moreover have "computed pf (typeDigests m) hd b"
        using Inr bm by (simp add: computed_def)
      ultimately show ?thesis
        using assms b unfolding fst_eq cache_sound_def list_all_iff by auto
    qed
  next
    case hit: (Some v)
    then have "(hd, v) \<in> set (lru m)" by (rule map_of_SomeD)
    with assms have v: "v \<noteq> Undefined" "computed pf (typeDigests m) hd v"
      by (auto simp: cache_sound_def list_all_iff)
    have fst_eq: "fst (preferredAccept pf m h) = m\<lparr>lru := (hd, v) # AList.delete hd (lru m)\<rparr>"
      using Some hit v by (simp add: preferredAccept_def lru_get_def)
    show ?thesis
      using assms v set_delete_subset [of hd "lru m"]
      unfolding fst_eq cache_sound_def list_all_iff by auto
  qed
qed

lemma calls_sound: "cache_sound pf m \<Longrightarrow> cache_sound pf (calls pf m hs)"
  by (induction hs arbitrary: m) (simp_all add: preferredAccept_sound)

lemma calls_frame:
  "typeDigests (calls pf m hs) = typeDigests m \<and> mediaTypes (calls pf m hs) = mediaTypes m"
  by (induction hs arbitrary: m) (simp_all add: preferredAccept_frame)

lemma initial_sound: "cache_sound pf (makeAcceptMatcher ts)"
  by (simp add: cache_sound_def makeAcceptMatcher_def)

lemma sound_error_miss:
  assumes "cache_sound pf m" "parseAccepts pf h = Inl e"
  shows "map_of (lru m) h = None"
proof (cases "map_of (lru m) h")
  case None
  then show ?thesis .
next
  case (Some v)
  then have "(h, v) \<in> set (lru m)" by (rule map_of_SomeD)
  with assms show ?thesis
    by (auto simp: cache_sound_def list_all_iff computed_def)
qed

text \<open>
  C9. For a matcher built from any media types, after any sequence of calls: when
  the header does not parse, \<open>select\<close> throws the parser's error and leaves the matcher,
  cache included, as it was; a second call with the same header throws the same error
  and leaves the same matcher.
\<close>

theorem parse_error_propagates:
  assumes "parseAccepts pf h = Inl e"
  shows "preferredAccept pf (calls pf (makeAcceptMatcher ts) hs) (Some h) =
           (calls pf (makeAcceptMatcher ts) hs, Inl e) \<and>
         preferredAccept pf
           (fst (preferredAccept pf (calls pf (makeAcceptMatcher ts) hs) (Some h))) (Some h) =
           (calls pf (makeAcceptMatcher ts) hs, Inl e)"
proof -
  let ?m = "calls pf (makeAcceptMatcher ts) hs"
  have "cache_sound pf ?m" by (simp add: calls_sound initial_sound)
  then have "map_of (lru ?m) h = None" using assms by (rule sound_error_miss)
  then have "preferredAccept pf ?m (Some h) = (?m, Inl e)"
    using assms by (simp add: preferredAccept_def lru_get_def)
  then show ?thesis by simp
qed

lemma whitespace_loop:
  assumes "list_all (\<lambda>c. isWhitespace (charCode c)) h" "state st = EXPECT_TYPE"
  shows "parse_loop pf st h = Inr st"
  using assms by (induction h) (simp_all add: step_def)

lemma whitespace_parse:
  assumes "list_all (\<lambda>c. isWhitespace (charCode c)) h"
  shows "parseAccepts pf h = Inr []"
  using whitespace_loop [OF assms, of initial_parser pf]
  by (simp add: parseAccepts_def initial_parser_def sort_accepts_def)

lemma best_match_no_specs: "best_match [] dgs best = best"
  by (induction dgs) (cases best; simp)+

text \<open>
  C10. For a matcher built from any media types, after any sequence of calls: a
  header of white-space bytes only (the empty header included) parses to the empty
  list of ranges and \<open>select\<close> returns \<open>null\<close>, whereas without a header it returns
  the first registered media type (\<open>mediaTypes[0]\<close>).
\<close>

theorem whitespace_header_selects_null:
  assumes "list_all (\<lambda>c. isWhitespace (charCode c)) h"
  shows "parseAccepts pf h = Inr [] \<and>
         snd (preferredAccept pf (calls pf (makeAcceptMatcher ts) hs) (Some h)) = Inr Null \<and>
         snd (preferredAccept pf (calls pf (makeAcceptMatcher ts) hs) None) =
           Inr (case ts of [] \<Rightarrow> Undefined | t # _ \<Rightarrow> String t)"
proof -
  let ?m = "calls pf (makeAcceptMatcher ts) hs"
  have p: "parseAccepts pf h = Inr []" using assms by (rule whitespace_parse)
  have sound: "cache_sound pf ?m" by (simp add: calls_sound initial_sound)
  have sel: "snd (preferredAccept pf ?m (Some h)) = Inr Null"
  proof (cases "map_of (lru ?m) h")
    case None
    then show ?thesis
      using p by (simp add: preferredAccept_def lru_get_def best_match_no_specs)
  next
    case (Some v)
    then have "(h, v) \<in> set (lru ?m)" by (rule map_of_SomeD)
    with sound p have "v = Null"
      by (auto simp: cache_sound_def list_all_iff computed_def best_match_no_specs)
    with Some show ?thesis
      by (simp add: preferredAccept_def lru_get_def)
  qed
  have "mediaTypes ?m = ts"
    by (simp add: calls_frame makeAcceptMatcher_def)
  then have "snd (preferredAccept pf ?m None) =
      Inr (case ts of [] \<Rightarrow> Undefined | t # _ \<Rightarrow> String t)"
    by (simp add: preferredAccept_def)
  with p sel show ?thesis by simp
qed


text \<open>C9, at the scenario's matcher after a call with \<open>*/*\<close> and the header of
  scenario 9.\<close>

theorem parse_error_propagates_witness:
  "preferredAccept parseFloat (calls parseFloat (makeAcceptMatcher scenario_types) [Some ''*/*''])
     (Some ''not a valid header!!!'') =
   (calls parseFloat (makeAcceptMatcher scenario_types) [Some ''*/*''],
    Inl (UnexpectedCharacter CHR '' ''))"
proof -
  have e: "parseAccepts parseFloat ''not a valid header!!!'' = Inl (UnexpectedCharacter CHR '' '')"
    by code_simp
  show ?thesis
    using parse_error_propagates [OF e, of scenario_types "[Some ''*/*'']"] by simp
qed

text \<open>C10, at the scenario's matcher after two calls and the header of a space and a
  tab.\<close>

theorem whitespace_header_selects_null_witness:
  "parseAccepts parseFloat [CHR 0x20, CHR 0x09] = Inr [] \<and>
   snd (preferredAccept parseFloat
          (calls parseFloat (makeAcceptMatcher scenario_types) [Some ''*/*'', None])
          (Some [CHR 0x20, CHR 0x09])) = Inr Null \<and>
   snd (preferredAccept parseFloat
          (calls parseFloat (makeAcceptMatcher scenario_types) [Some ''*/*'', None])
          None) = Inr (String ''application/json'')"
proof -
  have w: "list_all (\<lambda>c. isWhitespace (charCode c)) [CHR 0x20, CHR 0x09]"
    by (simp add: isWhitespace_def charCode_def SPACE_def WHITESPACE_START_def
        WHITESPACE_END_def)
  show ?thesis
    using whitespace_header_selects_null [OF w, of parseFloat scenario_types
        "[Some ''*/*'', None]"]
    by (simp add: scenario_types_def)
qed

subsection \<open>Headers without quotes\<close>

lemma tchar_facts:
  assumes "tchar cc"
  shows "isToken cc" "cc \<noteq> SLASH" "cc \<noteq> SEMICOLON" "cc \<noteq> COMMA" "cc \<noteq> EQUALS"
    "cc \<noteq> DOUBLE_QUOTE" "\<not> isWhitespace cc" "\<not> isOWS cc"
  using assms
  by (auto simp: tchar_def isToken_def SLASH_def SEMICOLON_def COMMA_def EQUALS_def
      DOUBLE_QUOTE_def isWhitespace_def isOWS_def SPACE_def HORIZONTAL_TAB_def
      WHITESPACE_START_def WHITESPACE_END_def)

lemma next'_plain:
  assumes "plain_parser st" "state st \<noteq> EXPECT_TYPE"
  shows "\<exists>st'. next' pf st = Inr st' \<and> state st' = EXPECT_TYPE \<and> plain_parser st' \<and>
           accepts st' \<noteq> []"
  using assms
  by (auto simp: next'_def plain_parser_def push_accept_def q_untouched_def
      split: option.splits)

lemma q_untouched_update:
  "q_untouched a \<Longrightarrow> q_untouched (a\<lparr>parameters := AList.update n [] (parameters a)\<rparr>)"
  by (auto simp: q_untouched_def update_conv')

lemma q_untouched_append:
  "q_untouched a \<Longrightarrow> length n \<ge> 2 \<Longrightarrow>
   q_untouched (a\<lparr>parameters := append_property n s (parameters a)\<rparr>)"
  by (auto simp: q_untouched_def append_property_def update_conv')

lemma q_untouched_fresh [simp]:
  "q_untouched \<lparr>type = t, subtype = s, parameters = [], q = x\<rparr>"
  "q_untouched (a\<lparr>type := t\<rparr>) = q_untouched a"
  "q_untouched (a\<lparr>subtype := s\<rparr>) = q_untouched a"
  by (simp_all add: q_untouched_def)

lemma with_current_plain:
  assumes "currentAccept st = Some a"
  shows "with_current st f = Inr (st\<lparr>currentAccept := Some (f a)\<rparr>)"
  using assms by (simp add: with_current_def)

lemma step_simulates:
  assumes inv: "plain_parser st" and pb: "plain_byte c"
    and tab: "table_step (state st) c rest = Some (s', k)"
  shows "\<exists>st'. step pf st c rest = Inr (st', k) \<and> state st' = s' \<and> plain_parser st' \<and>
           (started st \<longrightarrow> started st') \<and> (\<not> isWhitespace (charCode c) \<longrightarrow> started st')"
proof (cases "state st")
  case EXPECT_TYPE
  with inv tab show ?thesis
    by (auto simp: table_step_def step_def plain_parser_def started_def tchar_facts
        split: if_splits list.splits option.splits)
next
  case CONTINUE_TYPE
  with inv obtain a where a: "currentAccept st = Some a" by (auto simp: plain_parser_def)
  from CONTINUE_TYPE inv tab a show ?thesis
    by (auto simp: table_step_def step_def plain_parser_def started_def tchar_facts
        with_current_plain split: if_splits)
next
  case EXPECT_SUBTYPE
  with inv obtain a where a: "currentAccept st = Some a" by (auto simp: plain_parser_def)
  from EXPECT_SUBTYPE inv tab a show ?thesis
    by (auto simp: table_step_def step_def plain_parser_def started_def tchar_facts
        with_current_plain split: if_splits)
next
  case CONTINUE_SUBTYPE
  with inv obtain a where a: "currentAccept st = Some a" by (auto simp: plain_parser_def)
  from CONTINUE_SUBTYPE have ne: "state st \<noteq> EXPECT_TYPE" by simp
  from next'_plain [OF inv ne, of pf] obtain st1 where
    n: "next' pf st = Inr st1" "state st1 = EXPECT_TYPE" "plain_parser st1" "accepts st1 \<noteq> []"
    by blast
  from CONTINUE_SUBTYPE inv tab a n show ?thesis
    by (auto simp: table_step_def step_def plain_parser_def started_def tchar_facts
        with_current_plain split: if_splits)
next
  case EXPECT_COMMA_OR_SEMICOLON
  then have ne: "state st \<noteq> EXPECT_TYPE" by simp
  from next'_plain [OF inv ne, of pf] obtain st1 where
    n: "next' pf st = Inr st1" "state st1 = EXPECT_TYPE" "plain_parser st1" "accepts st1 \<noteq> []"
    by blast
  from EXPECT_COMMA_OR_SEMICOLON inv tab n show ?thesis
    by (auto simp: table_step_def step_def plain_parser_def started_def tchar_facts
        split: if_splits)
next
  case EXPECT_PARAMETER_NAME
  with inv tab show ?thesis
    by (auto simp: table_step_def step_def plain_parser_def started_def tchar_facts
        split: if_splits)
next
  case CONTINUE_PARAMETER_NAME
  with inv obtain a where a: "currentAccept st = Some a" by (auto simp: plain_parser_def)
  from CONTINUE_PARAMETER_NAME inv tab a show ?thesis
    by (auto simp: table_step_def step_def plain_parser_def started_def tchar_facts
        with_current_plain q_untouched_update special_not_token split: if_splits)
next
  case EXPECT_PARAMETER_VALUE
  have "charCode c \<noteq> DOUBLE_QUOTE"
    using pb tchar_facts(6) [of "charCode c"]
    by (auto simp: plain_byte_def DOUBLE_QUOTE_def SLASH_def
        SEMICOLON_def EQUALS_def COMMA_def isOWS_def SPACE_def HORIZONTAL_TAB_def)
  with EXPECT_PARAMETER_VALUE inv tab show ?thesis
    by (cases "currentParameterName st")
      (auto simp: table_step_def step_def plain_parser_def started_def tchar_facts
        split: if_splits)
next
  case CONTINUE_PARAMETER_VALUE
  with inv obtain a where a: "currentAccept st = Some a" by (auto simp: plain_parser_def)
  from CONTINUE_PARAMETER_VALUE have ne: "state st \<noteq> EXPECT_TYPE" by simp
  from next'_plain [OF inv ne, of pf] obtain st1 where
    n: "next' pf st = Inr st1" "state st1 = EXPECT_TYPE" "plain_parser st1" "accepts st1 \<noteq> []"
    by blast
  from CONTINUE_PARAMETER_VALUE inv tab a n show ?thesis
    by (auto simp: table_step_def step_def plain_parser_def started_def tchar_facts
        with_current_plain q_untouched_append split: if_splits)
next
  case CONTINUE_QUOTED_PARAMETER_VALUE
  with inv show ?thesis by (simp add: plain_parser_def)
qed

lemma parse_loop_plain:
  assumes "plain_parser st" "list_all plain_byte cs" "table_permits (state st) cs"
  shows "\<exists>st'. parse_loop pf st cs = Inr st' \<and> plain_parser st' \<and>
           (started st \<or> \<not> list_all (\<lambda>c. isWhitespace (charCode c)) cs \<longrightarrow> started st')"
  using assms
proof (induction pf st cs rule: parse_loop.induct)
  case (1 pf st)
  then show ?case by simp
next
  case (2 pf st c cs)
  from "2.prems"(3) obtain s' k where tab: "table_step (state st) c cs = Some (s', k)"
    and rest: "table_permits s' (drop k cs)"
    by (auto split: option.splits)
  from "2.prems"(2) have pb: "plain_byte c" and pbs: "list_all plain_byte (drop k cs)"
    by (auto simp: list_all_iff dest: in_set_dropD)
  from step_simulates [OF "2.prems"(1) pb tab, of pf] obtain st1 where
    st1: "step pf st c cs = Inr (st1, k)" "state st1 = s'" "plain_parser st1"
      "started st \<longrightarrow> started st1" "\<not> isWhitespace (charCode c) \<longrightarrow> started st1"
    by blast
  from "2.IH" [OF st1(1) refl st1(3) pbs] rest st1(2) obtain st' where
    st': "parse_loop pf st1 (drop k cs) = Inr st'" "plain_parser st'"
      "started st1 \<or> \<not> list_all (\<lambda>c. isWhitespace (charCode c)) (drop k cs) \<longrightarrow> started st'"
    by auto
  have k0: "isWhitespace (charCode c) \<Longrightarrow> state st = EXPECT_TYPE \<Longrightarrow> k = 0"
    using tab by (auto simp: table_step_def)
  have "started st \<or> \<not> list_all (\<lambda>c. isWhitespace (charCode c)) (c # cs) \<longrightarrow> started st'"
  proof (intro impI)
    assume a: "started st \<or> \<not> list_all (\<lambda>c. isWhitespace (charCode c)) (c # cs)"
    show "started st'"
    proof (cases "started st1")
      case True
      with st'(3) show ?thesis by simp
    next
      case False
      with st1(4,5) have ns: "\<not> started st" and ws: "isWhitespace (charCode c)" by auto
      from ns have "state st = EXPECT_TYPE" by (simp add: started_def)
      with ws have "k = 0" by (rule k0)
      with a ns ws st'(3) show ?thesis by simp
    qed
  qed
  with st1(1) st'(1,2) show ?case by simp
qed

lemma sort_accepts_Nil: "sort_accepts as = [] \<longleftrightarrow> as = []"
  using length_sort [of "\<lambda>a. - int (score a)" as]
  unfolding sort_accepts_def by (metis length_0_conv)

text \<open>
  C8, amended. For every input string that is composed of token bytes, \<open>/\<close>, \<open>;\<close>,
  \<open>=\<close>, \<open>,\<close> and optional white space in an order that the state table of the
  specification permits, and that holds at least one byte that is not white space,
  \<open>parseAccepts\<close> returns, without an error, a list of at least one range.
\<close>

theorem plain_header_parses:
  assumes "list_all plain_byte h" and "table_permits EXPECT_TYPE h"
    and "\<not> list_all (\<lambda>c. isWhitespace (charCode c)) h"
  shows "\<exists>a as. parseAccepts pf h = Inr (a # as)"
proof -
  have init: "plain_parser initial_parser"
    by (simp add: plain_parser_def initial_parser_def)
  have "table_permits (state initial_parser) h"
    using assms(2) by (simp add: initial_parser_def)
  from parse_loop_plain [OF init assms(1) this, of pf] assms(3) obtain st where
    st: "parse_loop pf initial_parser h = Inr st" "plain_parser st" "started st"
    by auto
  show ?thesis
  proof (cases "state st = EXPECT_TYPE")
    case True
    with st(3) have "accepts st \<noteq> []" by (simp add: started_def)
    then have "sort_accepts (accepts st) \<noteq> []"
      by (simp add: sort_accepts_Nil)
    then obtain a as where "sort_accepts (accepts st) = a # as"
      by (cases "sort_accepts (accepts st)") auto
    with st(1) True show ?thesis by (simp add: parseAccepts_def)
  next
    case False
    from next'_plain [OF st(2) False, of pf] obtain st' where
      n: "next' pf st = Inr st'" "accepts st' \<noteq> []"
      by blast
    then have "sort_accepts (accepts st') \<noteq> []"
      by (simp add: sort_accepts_Nil)
    then obtain a as where "sort_accepts (accepts st') = a # as"
      by (cases "sort_accepts (accepts st')") auto
    with st(1) False n(1) show ?thesis by (simp add: parseAccepts_def)
  qed
qed

text \<open>
  C8, as stated, fails: the header of one space is not empty, is made of optional
  white space, and is permitted by the state table, which skips white space in
  \<open>EXPECT_TYPE\<close>; the parser returns the empty list for it.
\<close>

theorem plain_header_counterexample:
  "'' '' \<noteq> [] \<and> list_all plain_byte '' '' \<and> table_permits EXPECT_TYPE '' '' \<and>
   parseAccepts parseFloat '' '' = Inr []"
  by code_simp

text \<open>C8, the amended statement at the header \<open>text/html;q=0.5, */*;a=b\<close>.\<close>

theorem plain_header_parses_witness:
  "list_all plain_byte ''text/html;q=0.5, */*;a=b'' \<and>
   table_permits EXPECT_TYPE ''text/html;q=0.5, */*;a=b'' \<and>
   \<not> list_all (\<lambda>c. isWhitespace (charCode c)) ''text/html;q=0.5, */*;a=b'' \<and>
   (\<exists>a as. parseAccepts parseFloat ''text/html;q=0.5, */*;a=b'' = Inr (a # as))"
proof -
  have a: "list_all plain_byte ''text/html;q=0.5, */*;a=b''"
    by code_simp
  have b: "table_permits EXPECT_TYPE ''text/html;q=0.5, */*;a=b''"
    by code_simp
  have c: "\<not> list_all (\<lambda>c. isWhitespace (charCode c)) ''text/html;q=0.5, */*;a=b''"
    by code_simp
  show ?thesis
    using a b c plain_header_parses [OF a b c, of parseFloat] by blast
qed

subsection \<open>Committed ranges\<close>

lemma finite_value_in_range: "\<not> q_out_of_range x \<Longrightarrow> 0 \<le> finite_value x \<and> finite_value x \<le> 1"
  by (cases x) auto

lemma next'_committed:
  "committed_ok st \<Longrightarrow> next' pf st = Inr st' \<Longrightarrow> committed_ok st'"
  by (auto simp: next'_def committed_ok_def push_accept_def q_in_range_def
      q_untouched_def finite_value_in_range delete_conv'
      split: option.splits if_splits)

lemma step_committed:
  assumes "committed_ok st" "step pf st c rest = Inr (st', k)"
  shows "committed_ok st'"
proof (cases "next' pf st")
  case (Inl e)
  with assms show ?thesis
    by (cases "state st")
      (auto simp: step_def map_sum_Inr with_current_def committed_ok_def q_in_range_def
        split: if_splits list.splits option.splits)
next
  case (Inr st1)
  with assms(1) have "committed_ok st1" by (auto dest: next'_committed)
  with assms Inr show ?thesis
    by (cases "state st")
      (auto simp: step_def map_sum_Inr with_current_def committed_ok_def q_in_range_def
        split: if_splits list.splits option.splits)
qed

lemma parse_loop_committed:
  "committed_ok st \<Longrightarrow> parse_loop pf st cs = Inr st' \<Longrightarrow> committed_ok st'"
proof (induction pf st cs rule: parse_loop.induct)
  case (1 pf st)
  then show ?case by simp
next
  case (2 pf st c cs)
  then show ?case
    by (auto split: sum.splits prod.splits dest: step_committed)
qed

lemma parseAccepts_committed:
  assumes "parseAccepts pf h = Inr rs" "a \<in> set rs"
  shows "q_untouched a \<and> q_in_range a"
proof -
  have init: "committed_ok initial_parser"
    by (simp add: committed_ok_def initial_parser_def)
  from assms(1) obtain st st' where loop: "parse_loop pf initial_parser h = Inr st"
    and fin: "(if state st \<noteq> EXPECT_TYPE then next' pf st else Inr st) = Inr st'"
    and rs: "rs = sort_accepts (accepts st')"
    by (rule parseAccepts_InrE)
  have "committed_ok st" using parse_loop_committed [OF init loop] .
  with fin have "committed_ok st'"
    by (auto split: if_splits dest: next'_committed)
  with rs assms(2) show ?thesis
    by (auto simp: committed_ok_def list_all_iff)
qed

text \<open>
  In every range that the parser returns, the parameter \<open>q\<close> is absent or has the
  empty string as its value: \<open>next\<close> removes a \<open>q\<close> that has a value.
\<close>

theorem committed_q_parameter:
  assumes "parseAccepts pf h = Inr rs" "a \<in> set rs"
  shows "map_of (parameters a) ''q'' = None \<or> map_of (parameters a) ''q'' = Some ''''"
  using parseAccepts_committed [OF assms] by (simp add: q_untouched_def)

text \<open>
  In every range that the parser returns, the field \<open>q\<close> lies in \<open>[0, 1]\<close>: it is 1
  unless \<open>next\<close> assigned a parsed value, which it checks.
\<close>

theorem committed_q_range:
  assumes "parseAccepts pf h = Inr rs" "a \<in> set rs"
  shows "0 \<le> q a \<and> q a \<le> 1"
  using parseAccepts_committed [OF assms] by (simp add: q_in_range_def)


text \<open>Both statements at the first range of the header \<open>a/b;q="0.5",c/d\<close>.\<close>

theorem committed_q_parameter_witness:
  "map_of (parameters \<lparr>type = ''a'', subtype = ''b'', parameters = [], q = 1 / 2\<rparr>) ''q'' = None \<or>
   map_of (parameters \<lparr>type = ''a'', subtype = ''b'', parameters = [], q = 1 / 2\<rparr>) ''q'' =
     Some ''''"
  using committed_q_parameter [OF qh_parse,
      of "\<lparr>type = ''a'', subtype = ''b'', parameters = [], q = 1 / 2\<rparr>"]
  by simp

theorem committed_q_range_witness:
  "0 \<le> q \<lparr>type = ''a'', subtype = ''b'', parameters = [], q = 1 / 2\<rparr> \<and>
   q \<lparr>type = ''a'', subtype = ''b'', parameters = [], q = 1 / 2\<rparr> \<le> 1"
  using committed_q_range [OF qh_parse,
      of "\<lparr>type = ''a'', subtype = ''b'', parameters = [], q = 1 / 2\<rparr>"]
  by simp

end
